theory Spec2Isabelle
  imports Complex_Main "HOL-Library.Sublist"
begin

section \<open>Python text primitives used by \<open>train_hdp.py\<close>\<close>

text \<open>
  The two input files are opened with \<^verbatim>\<open>open(path, "r", encoding="utf-8")\<close>. A file's
  content is a \<open>string\<close>; the model covers ASCII content, where a character of the
  decoded text is one \<open>char\<close>. Text mode translates the line endings
  \<^verbatim>\<open>\r\n\<close> and \<^verbatim>\<open>\r\<close> into \<^verbatim>\<open>\n\<close> before the program sees them.
\<close>

datatype error =
    ValueError
  | IndexError
  | OSError
  | UnicodeDecodeError
  | MissingInput
  | OutputExists
  | LibraryError string

abbreviation LF :: char where "LF \<equiv> CHR 0x0A"
abbreviation CR :: char where "CR \<equiv> CHR 0x0D"

fun universal_newlines :: "string \<Rightarrow> string" where
  "universal_newlines [] = []"
| "universal_newlines [c] = (if c = CR then [LF] else [c])"
| "universal_newlines (c # d # cs) =
     (if c = CR then
        (if d = LF then LF # universal_newlines cs
         else LF # universal_newlines (d # cs))
      else c # universal_newlines (d # cs))"

text \<open>
  Iterating over a text file (and \<^verbatim>\<open>readline\<close>) yields the lines with their
  terminating \<^verbatim>\<open>\n\<close> kept; only the last line may lack it.
\<close>

fun file_lines :: "string \<Rightarrow> string list" where
  "file_lines [] = []"
| "file_lines (c # cs) =
     (if c = LF then [c] # file_lines cs
      else (case file_lines cs of
              [] \<Rightarrow> [[c]]
            | l # ls \<Rightarrow> (c # l) # ls))"

definition text_lines :: "string \<Rightarrow> string list" where
  "text_lines content = file_lines (universal_newlines content)"

text \<open>\<^verbatim>\<open>fin.readline()\<close>: the next line, or the empty string at the end of the file.\<close>

definition readline :: "string list \<Rightarrow> string \<times> string list" where
  "readline ls = (case ls of [] \<Rightarrow> ([], []) | l # rest \<Rightarrow> (l, rest))"

text \<open>
  Whitespace of \<^verbatim>\<open>str.split()\<close> and of \<^verbatim>\<open>int()\<close> within ASCII: the characters
  \<open>0x09\<close> to \<open>0x0D\<close>, \<open>0x1C\<close> to \<open>0x1F\<close> and the space.
\<close>

definition is_space :: "char \<Rightarrow> bool" where
  "is_space c = (let n = (of_char c :: nat) in (9 \<le> n \<and> n \<le> 13) \<or> (28 \<le> n \<and> n \<le> 32))"

fun split_acc :: "string \<Rightarrow> string \<Rightarrow> string list" where
  "split_acc cur [] = (if cur = [] then [] else [cur])"
| "split_acc cur (c # cs) =
     (if is_space c then (if cur = [] then split_acc [] cs else cur # split_acc [] cs)
      else split_acc (cur @ [c]) cs)"

text \<open>\<^verbatim>\<open>line.split()\<close>: the maximal runs of non-whitespace characters.\<close>

definition py_split :: "string \<Rightarrow> string list" where
  "py_split s = split_acc [] s"

definition digit_val :: "char \<Rightarrow> int option" where
  "digit_val c = (let n = (of_char c :: nat) in
     if 48 \<le> n \<and> n \<le> 57 then Some (int n - 48) else None)"

text \<open>
  The digits of a decimal literal: at least one digit, single underscores allowed
  between digits only. \<open>prev\<close> tells whether the previous character was a digit.
\<close>

fun py_digits :: "int \<Rightarrow> bool \<Rightarrow> string \<Rightarrow> int option" where
  "py_digits acc prev [] = (if prev then Some acc else None)"
| "py_digits acc prev (c # cs) =
     (if c = CHR ''_'' then (if prev \<and> cs \<noteq> [] then py_digits acc False cs else None)
      else (case digit_val c of
              None \<Rightarrow> None
            | Some d \<Rightarrow> py_digits (10 * acc + d) True cs))"

definition strip :: "string \<Rightarrow> string" where
  "strip s = rev (dropWhile is_space (rev (dropWhile is_space s)))"

text \<open>
  \<^verbatim>\<open>int(s)\<close> for a string: surrounding whitespace is ignored, one sign is allowed;
  \<open>None\<close> stands for the \<^verbatim>\<open>ValueError\<close> of an invalid literal. Python integers
  are unbounded, hence \<open>int\<close>.
\<close>

definition py_int :: "string \<Rightarrow> int option" where
  "py_int s =
     (case strip s of
        [] \<Rightarrow> None
      | c # cs \<Rightarrow>
          if c = CHR ''-'' then map_option uminus (py_digits 0 False cs)
          else if c = CHR ''+'' then py_digits 0 False cs
          else py_digits 0 False (c # cs))"

text \<open>
  \<^verbatim>\<open>xs[i]\<close> on a list of length \<open>n\<close>: a negative index counts from the end;
  \<open>None\<close> stands for the \<^verbatim>\<open>IndexError\<close>.
\<close>

definition py_index :: "nat \<Rightarrow> int \<Rightarrow> nat option" where
  "py_index n i =
     (let j = (if i < 0 then i + int n else i)
      in if 0 \<le> j \<and> j < int n then Some (nat j) else None)"

section \<open>The corpus reader \<open>create_gensim_corpus\<close>\<close>

type_synonym document = "(int \<times> int) list"
type_synonym GensimCorpus = "document list"

text \<open>
  \<^verbatim>\<open>doc_id, word_id, count = map(int, line.split())\<close>: the unpacking succeeds exactly when
  the line holds three fields that are all integer literals; every other line raises
  \<^verbatim>\<open>ValueError\<close> (\<open>None\<close> here).
\<close>

definition parse_row :: "string \<Rightarrow> (int \<times> int \<times> int) option" where
  "parse_row line =
     (case map py_int (py_split line) of
        [Some doc_id, Some word_id, Some count] \<Rightarrow> Some (doc_id, word_id, count)
      | _ \<Rightarrow> None)"

text \<open>
  The loop over the remaining lines of the file:
  \<^verbatim>\<open>corpus[doc_id].append((word_id - 1, count))\<close>.
  The document list is indexed with \<open>doc_id\<close> as read; \<open>word_id\<close> is decremented.
\<close>

fun read_rows :: "GensimCorpus \<Rightarrow> string list \<Rightarrow> error + GensimCorpus" where
  "read_rows corpus [] = Inr corpus"
| "read_rows corpus (line # rest) =
     (case parse_row line of
        None \<Rightarrow> Inl ValueError
      | Some (doc_id, word_id, count) \<Rightarrow>
          (case py_index (length corpus) doc_id of
             None \<Rightarrow> Inl IndexError
           | Some i \<Rightarrow> read_rows (corpus[i := corpus ! i @ [(word_id - 1, count)]]) rest))"

text \<open>
  The body of \<open>create_gensim_corpus\<close>, on the content of the opened file. The three
  header lines are read with \<^verbatim>\<open>int(fin.readline())\<close>; \<open>num_words\<close> and \<open>num_rows\<close>
  are only logged (and \<open>num_rows\<close> given to the progress bar as its total).
  \<^verbatim>\<open>range\<close> of a negative number is empty, hence \<open>nat\<close>.
\<close>

definition create_gensim_corpus_text :: "string \<Rightarrow> error + GensimCorpus" where
  "create_gensim_corpus_text content =
     (let (l1, fin1) = readline (text_lines content) in
      case py_int l1 of
        None \<Rightarrow> Inl ValueError
      | Some num_docs \<Rightarrow>
          (let corpus = replicate (nat num_docs) [];
               (l2, fin2) = readline fin1 in
           case py_int l2 of
             None \<Rightarrow> Inl ValueError
           | Some num_words \<Rightarrow>
               (let (l3, fin3) = readline fin2 in
                case py_int l3 of
                  None \<Rightarrow> Inl ValueError
                | Some num_rows \<Rightarrow> read_rows corpus fin3)))"


section \<open>Numbers of the document-topic matrix\<close>

text \<open>
  The entries of the numpy arrays are IEEE doubles. They are modelled by their values:
  a finite double is the real number it denotes, and the three special values are kept
  apart, because a division by zero produces them instead of raising. Rounding,
  overflow of finite results and the sign of zero are not modelled.
\<close>

datatype npfloat = Fin real | PInf | NInf | NaN

fun fadd :: "npfloat \<Rightarrow> npfloat \<Rightarrow> npfloat" where
  "fadd NaN y = NaN"
| "fadd x NaN = NaN"
| "fadd (Fin a) (Fin b) = Fin (a + b)"
| "fadd PInf NInf = NaN"
| "fadd NInf PInf = NaN"
| "fadd PInf y = PInf"
| "fadd x PInf = PInf"
| "fadd NInf y = NInf"
| "fadd x NInf = NInf"

fun fdiv :: "npfloat \<Rightarrow> npfloat \<Rightarrow> npfloat" where
  "fdiv NaN y = NaN"
| "fdiv x NaN = NaN"
| "fdiv (Fin a) (Fin b) =
     (if b = 0 then (if a = 0 then NaN else if 0 < a then PInf else NInf)
      else Fin (a / b))"
| "fdiv (Fin a) y = Fin 0"
| "fdiv PInf (Fin b) = (if 0 \<le> b then PInf else NInf)"
| "fdiv NInf (Fin b) = (if 0 \<le> b then NInf else PInf)"
| "fdiv x y = NaN"

type_synonym matrix = "npfloat list list"

text \<open>The builtin \<^verbatim>\<open>sum(gammas)\<close>: a left fold that starts from \<open>0\<close>.\<close>

definition py_sum :: "npfloat list \<Rightarrow> npfloat" where
  "py_sum xs = foldl fadd (Fin 0) xs"

text \<open>
  \<^verbatim>\<open>gammas / sum(gammas)\<close>: numpy divides every entry by the scalar. There is no test
  of the divisor.
\<close>

definition normalise :: "npfloat list \<Rightarrow> npfloat list" where
  "normalise gammas = map (\<lambda>g. fdiv g (py_sum gammas)) gammas"

text \<open>
  \<^verbatim>\<open>np.empty((rows, cols))\<close>: a negative dimension raises \<^verbatim>\<open>ValueError\<close>; the entries
  of the new array are not initialised, so their value is left unspecified.
\<close>

definition np_empty :: "nat \<Rightarrow> int \<Rightarrow> error + matrix" where
  "np_empty rows cols =
     (if cols < 0 then Inl ValueError
      else Inr (replicate rows (replicate (nat cols) undefined)))"

text \<open>
  \<^verbatim>\<open>document_topics[ind_doc, :] = v\<close> for a one-dimensional \<open>v\<close>: the value must have
  the length of the row, or length one (it is then broadcast).
\<close>

definition assign_row :: "matrix \<Rightarrow> nat \<Rightarrow> npfloat list \<Rightarrow> error + matrix" where
  "assign_row document_topics ind_doc v =
     (if length document_topics \<le> ind_doc then Inl IndexError
      else let cols = length (document_topics ! ind_doc) in
        if length v = cols then Inr (document_topics[ind_doc := v])
        else if length v = 1 then Inr (document_topics[ind_doc := replicate cols (hd v)])
        else Inl ValueError)"

text \<open>\<^verbatim>\<open>a[0]\<close> on the array that \<open>inference\<close> returns.\<close>

definition first_row :: "matrix \<Rightarrow> error + npfloat list" where
  "first_row a = (case a of [] \<Rightarrow> Inl IndexError | r # _ \<Rightarrow> Inr r)"

section \<open>The files and the calls of a run\<close>

text \<open>
  \<open>train_hdp\<close> reads and writes files and calls the topic-model library. A run is a
  function from the file system before to a result, the file system after and the list
  of the calls it made, in order. Logging and the progress bar have no effect on the
  result and are left out.
\<close>

datatype content = Text string | Array matrix | Directory

type_synonym filesystem = "string \<rightharpoonup> content"

datatype event =
    Call_check_file_exists string
  | Call_check_remove string
  | Call_create_directory string
  | Call_open string
  | Call_from_corpus GensimCorpus
  | Call_HdpModel GensimCorpus
  | Call_inference "document list"
  | Call_get_topics
  | Call_save string matrix

type_synonym 'a io = "filesystem \<Rightarrow> (error + 'a) \<times> filesystem \<times> event list"

definition io_return :: "'a \<Rightarrow> 'a io" where
  "io_return x = (\<lambda>fs. (Inr x, fs, []))"

text \<open>An exception ends the run: what follows is skipped, the calls made so far stay.\<close>

definition io_bind :: "'a io \<Rightarrow> ('a \<Rightarrow> 'b io) \<Rightarrow> 'b io" where
  "io_bind m f =
     (\<lambda>fs. case m fs of
        (Inl e, fs', evs) \<Rightarrow> (Inl e, fs', evs)
      | (Inr x, fs', evs) \<Rightarrow> (case f x fs' of (r, fs'', evs') \<Rightarrow> (r, fs'', evs @ evs')))"

text \<open>A computation without effect that returns or raises.\<close>

definition io_lift :: "error + 'a \<Rightarrow> 'a io" where
  "io_lift r = (\<lambda>fs. (r, fs, []))"

text \<open>
  \<^verbatim>\<open>open(path, "r", encoding="utf-8")\<close> followed by reading: a missing file or a
  directory raises an \<^verbatim>\<open>OSError\<close>, a binary array file does not decode.
\<close>

definition open_read :: "string \<Rightarrow> string io" where
  "open_read path =
     (\<lambda>fs. (case fs path of
               Some (Text content) \<Rightarrow> Inr content
             | Some (Array a) \<Rightarrow> Inl UnicodeDecodeError
             | _ \<Rightarrow> Inl OSError,
             fs, [Call_open path]))"

text \<open>\<^verbatim>\<open>np.save(path, array)\<close>; failures of the operating system are not modelled.\<close>

definition np_save :: "string \<Rightarrow> matrix \<Rightarrow> unit io" where
  "np_save path a = (\<lambda>fs. (Inr (), fs(path \<mapsto> Array a), [Call_save path a]))"

text \<open>The calls of the library are recorded with their corpus argument.\<close>

definition call :: "event \<Rightarrow> error + 'a \<Rightarrow> 'a io" where
  "call ev r = (\<lambda>fs. (r, fs, [ev]))"

text \<open>\<^verbatim>\<open>os.path.join\<close> of \<^verbatim>\<open>posixpath\<close>.\<close>

definition join2 :: "string \<Rightarrow> string \<Rightarrow> string" where
  "join2 path b =
     (if b \<noteq> [] \<and> hd b = CHR ''/'' then b
      else if path = [] \<or> last path = CHR ''/'' then path @ b
      else path @ CHR ''/'' # b)"

definition path_join :: "string \<Rightarrow> string list \<Rightarrow> string" where
  "path_join a p = foldl join2 a p"

subsection \<open>The constants of \<open>io_constants.py\<close>\<close>

definition BOW_DIR :: string where "BOW_DIR = ''/data/bows''"
definition DOCWORD_FILENAME :: string where "DOCWORD_FILENAME = ''docword.bow_tm.txt''"
definition VOCAB_FILENAME :: string where "VOCAB_FILENAME = ''vocab.bow_tm.txt''"
definition TOPICS_DIR :: string where "TOPICS_DIR = ''/data/topics''"
definition DOCTOPIC_FILENAME :: string where "DOCTOPIC_FILENAME = ''doctopic.npy''"
definition WORDTOPIC_FILENAME :: string where "WORDTOPIC_FILENAME = ''wordtopic.npy''"

subsection \<open>The helpers of \<open>utils.py\<close>\<close>

text \<open>
  Modelled from the spec: \<open>check_file_exists\<close> of \<open>utils.py\<close>, which is not among the
  sources. The spec counts it among the existence checks that validate the input paths:
  the run stops when the file is missing.
\<close>

definition check_file_exists :: "string \<Rightarrow> unit io" where
  "check_file_exists path =
     (\<lambda>fs. (if fs path = None then Inl MissingInput else Inr (),
             fs, [Call_check_file_exists path]))"

text \<open>
  Modelled from the spec: \<open>check_remove\<close> of \<open>utils.py\<close>, which is not among the
  sources. The spec: if the destination exists and force is false, abort before any
  computation; if true, the destination is deleted first.
\<close>

definition check_remove :: "string \<Rightarrow> bool \<Rightarrow> unit io" where
  "check_remove path force =
     (\<lambda>fs. if fs path = None then (Inr (), fs, [Call_check_remove path])
            else if \<not> force then (Inl OutputExists, fs, [Call_check_remove path])
            else (Inr (), fs(path := None), [Call_check_remove path]))"

text \<open>
  Modelled from the spec: \<open>create_directory\<close> of \<open>utils.py\<close>, which is not among the
  sources. The spec only names path construction as a collaborator; the helper is taken
  to create the directory when nothing exists at the path and to leave the file system
  alone otherwise.
\<close>

definition create_directory :: "string \<Rightarrow> unit io" where
  "create_directory dir_path =
     (\<lambda>fs. (Inr (),
             if fs dir_path = None then fs(dir_path \<mapsto> Directory) else fs,
             [Call_create_directory dir_path]))"

section \<open>The topic-model library\<close>

text \<open>
  \<open>gensim\<close> is not part of the repository. Its four entry points are parameters of the
  model: each is a function that returns a result or raises. \<open>'d\<close> is the type of the
  dictionary object and \<open>'m\<close> the type of the trained model.
\<close>

record hdp_params =
  chunk_size :: int
  kappa :: npfloat
  tau :: npfloat
  K :: int
  T :: int
  alpha :: int
  gamma :: int
  eta :: npfloat
  scale :: npfloat
  var_converge :: npfloat

record ('d, 'm) gensim =
  from_corpus :: "GensimCorpus \<Rightarrow> (int \<rightharpoonup> string) \<Rightarrow> error + 'd"
  HdpModel :: "GensimCorpus \<Rightarrow> 'd \<Rightarrow> hdp_params \<Rightarrow> error + 'm"
  inference :: "'m \<Rightarrow> document list \<Rightarrow> error + matrix"
  get_topics :: "'m \<Rightarrow> error + matrix"

section \<open>\<open>train_hdp\<close>\<close>

text \<open>\<open>create_gensim_corpus\<close> on a path: open the file, run the body on its content.\<close>

definition create_gensim_corpus :: "string \<Rightarrow> GensimCorpus io" where
  "create_gensim_corpus input_path =
     io_bind (open_read input_path) (\<lambda>content. io_lift (create_gensim_corpus_text content))"

text \<open>
  The vocabulary:
  \<^verbatim>\<open>{i: word.replace("\n", "") for i, word in enumerate(fin)}\<close>.
  \<^verbatim>\<open>replace\<close> removes every line feed of the line.
\<close>

definition word_index :: "string \<Rightarrow> (int \<rightharpoonup> string)" where
  "word_index content =
     foldl (\<lambda>d (i, word). d(int i \<mapsto> filter (\<lambda>c. c \<noteq> LF) word)) Map.empty
       (List.enumerate 0 (text_lines content))"

text \<open>
  The inference loop:
  \<^verbatim>\<open>for ind_doc, bow in enumerate(corpus):
    gammas = hdp.inference([bow])[0]
    document_topics[ind_doc, :] = gammas / sum(gammas)\<close>
\<close>

fun infer_loop ::
  "('d, 'm) gensim \<Rightarrow> 'm \<Rightarrow> matrix \<Rightarrow> (nat \<times> document) list \<Rightarrow> matrix io" where
  "infer_loop lib hdp document_topics [] fs = (Inr document_topics, fs, [])"
| "infer_loop lib hdp document_topics ((ind_doc, bow) # rest) fs =
     io_bind
       (io_bind (call (Call_inference [bow]) (inference lib hdp [bow])) (\<lambda>a.
        io_bind (io_lift (first_row a)) (\<lambda>gammas.
        io_lift (assign_row document_topics ind_doc (normalise gammas)))))
       (\<lambda>document_topics'. infer_loop lib hdp document_topics' rest) fs"

text \<open>
  \<open>train_hdp\<close>. \<open>DOCWORD_CONCAT_FILENAME\<close> is imported from \<open>io_constants.py\<close> but not
  defined in the version of that file among the sources, so it is a parameter.
\<close>

definition train_hdp ::
  "('d, 'm) gensim \<Rightarrow> string \<Rightarrow> string \<Rightarrow> string \<Rightarrow> bool \<Rightarrow> hdp_params \<Rightarrow> bool \<Rightarrow> unit io" where
  "train_hdp lib DOCWORD_CONCAT_FILENAME bow_name exp_name force params consolidate =
     (let input_dir = path_join BOW_DIR [bow_name];
          words_input_path = path_join input_dir [VOCAB_FILENAME];
          docword_input_path = path_join input_dir [DOCWORD_FILENAME];
          docword_concat_input_path = path_join input_dir [DOCWORD_CONCAT_FILENAME];
          output_dir = path_join TOPICS_DIR [bow_name, exp_name];
          doctopic_output_path = path_join output_dir [DOCTOPIC_FILENAME];
          wordtopic_output_path = path_join output_dir [WORDTOPIC_FILENAME]
      in
      io_bind (check_file_exists words_input_path) (\<lambda>_.
      io_bind (check_file_exists docword_input_path) (\<lambda>_.
      io_bind (if consolidate then check_file_exists docword_concat_input_path
               else io_return ()) (\<lambda>_.
      io_bind (check_remove doctopic_output_path force) (\<lambda>_.
      io_bind (check_remove wordtopic_output_path force) (\<lambda>_.
      io_bind (create_directory output_dir) (\<lambda>_.
      io_bind (open_read words_input_path) (\<lambda>fin.
      io_bind (create_gensim_corpus docword_input_path) (\<lambda>corpus.
      io_bind (if consolidate then create_gensim_corpus docword_concat_input_path
               else io_return corpus) (\<lambda>training_corpus.
      io_bind (call (Call_from_corpus training_corpus)
                 (from_corpus lib training_corpus (word_index fin))) (\<lambda>dictionary.
      io_bind (call (Call_HdpModel training_corpus)
                 (HdpModel lib training_corpus dictionary params)) (\<lambda>hdp.
      io_bind (io_lift (np_empty (length corpus) (T params))) (\<lambda>document_topics.
      io_bind (infer_loop lib hdp document_topics (List.enumerate 0 corpus)) (\<lambda>document_topics.
      io_bind (np_save doctopic_output_path document_topics) (\<lambda>_.
      io_bind (call Call_get_topics (get_topics lib hdp)) (\<lambda>topics.
      np_save wordtopic_output_path topics))))))))))))))))"

section \<open>Predicates of the specification\<close>

text \<open>The spec's words for the vocabulary: a line with its trailing newline stripped.\<close>

definition strip_trailing_newline :: "string \<Rightarrow> string" where
  "strip_trailing_newline line =
     (if line \<noteq> [] \<and> last line = LF then butlast line else line)"


text \<open>The paths opened for reading, and the chunks given to \<open>inference\<close>, in a trace.\<close>

fun opened :: "event \<Rightarrow> string list" where
  "opened (Call_open path) = [path]"
| "opened ev = []"

fun inferred :: "event \<Rightarrow> document list list" where
  "inferred (Call_inference chunk) = [chunk]"
| "inferred ev = []"

fun trained :: "event \<Rightarrow> GensimCorpus list" where
  "trained (Call_HdpModel training_corpus) = [training_corpus]"
| "trained ev = []"

fun saved :: "event \<Rightarrow> (string \<times> matrix) list" where
  "saved (Call_save path a) = [(path, a)]"
| "saved ev = []"

text \<open>
  The paths that \<open>train_hdp\<close> builds from its arguments, under the names of its local
  variables, and the last component of a path.
\<close>

definition input_dir :: "string \<Rightarrow> string" where
  "input_dir bow_name = path_join BOW_DIR [bow_name]"
definition words_input_path :: "string \<Rightarrow> string" where
  "words_input_path bow_name = path_join (input_dir bow_name) [VOCAB_FILENAME]"
definition docword_input_path :: "string \<Rightarrow> string" where
  "docword_input_path bow_name = path_join (input_dir bow_name) [DOCWORD_FILENAME]"
definition docword_concat_input_path :: "string \<Rightarrow> string \<Rightarrow> string" where
  "docword_concat_input_path DOCWORD_CONCAT_FILENAME bow_name =
     path_join (input_dir bow_name) [DOCWORD_CONCAT_FILENAME]"
definition output_dir :: "string \<Rightarrow> string \<Rightarrow> string" where
  "output_dir bow_name exp_name = path_join TOPICS_DIR [bow_name, exp_name]"
definition doctopic_output_path :: "string \<Rightarrow> string \<Rightarrow> string" where
  "doctopic_output_path bow_name exp_name =
     path_join (output_dir bow_name exp_name) [DOCTOPIC_FILENAME]"
definition wordtopic_output_path :: "string \<Rightarrow> string \<Rightarrow> string" where
  "wordtopic_output_path bow_name exp_name =
     path_join (output_dir bow_name exp_name) [WORDTOPIC_FILENAME]"

definition basename :: "string \<Rightarrow> string" where
  "basename path = rev (takeWhile (\<lambda>c. c \<noteq> CHR ''/'') (rev path))"


section \<open>A small run\<close>

text \<open>
  The inputs of the examples. The library instance has two topics; like
  \<^verbatim>\<open>HdpModel.inference\<close> of gensim, it leaves the gammas of an empty document at zero.
  The corpus file declares two documents and holds one row for document 1, so that the
  document of index 0 stays empty.
\<close>

definition example_library :: "(unit, unit) gensim" where
  "example_library =
     \<lparr>from_corpus = (\<lambda>corpus id2word. Inr ()),
      HdpModel = (\<lambda>corpus dictionary params. Inr ()),
      inference = (\<lambda>hdp chunk.
        Inr (map (\<lambda>bow. if bow = [] then [Fin 0, Fin 0] else [Fin 1, Fin 3]) chunk)),
      get_topics = (\<lambda>hdp. Inr [[Fin (1 / 2), Fin (1 / 4), Fin (1 / 4)],
                               [Fin (1 / 4), Fin (1 / 4), Fin (1 / 2)]])\<rparr>"

definition example_params :: hdp_params where
  "example_params =
     \<lparr>chunk_size = 256, kappa = Fin 1, tau = Fin 64, K = 15, T = 2, alpha = 1, gamma = 1,
      eta = Fin (1 / 100), scale = Fin 1, var_converge = Fin (1 / 10000)\<rparr>"

definition example_files :: filesystem where
  "example_files =
     [''/data/bows/b/vocab.bow_tm.txt'' \<mapsto> Text ''cat\<newline>dog\<newline>fish\<newline>'',
      ''/data/bows/b/docword.bow_tm.txt'' \<mapsto> Text ''2\<newline>3\<newline>1\<newline>1 1 2\<newline>'']"

section \<open>Properties of the corpus reader\<close>

lemma length_read_rows:
  "read_rows corpus rows = Inr corpus' \<Longrightarrow> length corpus' = length corpus"
  by (induction rows arbitrary: corpus) (auto split: option.splits)

lemma py_index_less: "py_index n i = Some k \<Longrightarrow> k < n"
  by (auto simp: py_index_def Let_def split: if_splits)



lemma sum_list_length_update:
  "k < length xs \<Longrightarrow>
   sum_list (map length (xs[k := xs ! k @ [p]])) = Suc (sum_list (map length xs))"
proof (induction xs arbitrary: k)
  case Nil
  then show ?case by simp
next
  case (Cons x xs)
  then show ?case by (cases k) auto
qed

lemma read_rows_pair_count:
  "read_rows corpus rows = Inr corpus' \<Longrightarrow>
   sum_list (map length corpus') = sum_list (map length corpus) + length rows"
proof (induction rows arbitrary: corpus)
  case Nil
  then show ?case by simp
next
  case (Cons line rest)
  then show ?case
    by (auto split: option.splits simp: sum_list_length_update py_index_less)
qed





lemma create_gensim_corpus_text_Inr_header:
  assumes "create_gensim_corpus_text content = Inr corpus"
  shows "\<exists>l1 l2 l3 rows D. text_lines content = l1 # l2 # l3 # rows \<and>
           py_int l1 = Some D \<and> read_rows (replicate (nat D) []) rows = Inr corpus"
proof -
  have empty: "py_int [] = None"
    by (simp add: py_int_def strip_def)
  obtain l1 fin1 where r1: "readline (text_lines content) = (l1, fin1)"
    by (cases "readline (text_lines content)")
  obtain l2 fin2 where r2: "readline fin1 = (l2, fin2)"
    by (cases "readline fin1")
  obtain l3 fin3 where r3: "readline fin2 = (l3, fin3)"
    by (cases "readline fin2")
  from assms r1 r2 r3 obtain D V N where
    p1: "py_int l1 = Some D" and p2: "py_int l2 = Some V" and p3: "py_int l3 = Some N"
    and rows: "read_rows (replicate (nat D) []) fin3 = Inr corpus"
    by (auto simp: create_gensim_corpus_text_def split: option.splits)
  from r1 p1 empty have t1: "text_lines content = l1 # fin1"
    by (auto simp: readline_def split: list.splits)
  from r2 p2 empty have t2: "fin1 = l2 # fin2"
    by (auto simp: readline_def split: list.splits)
  from r3 p3 empty have t3: "fin2 = l3 # fin3"
    by (auto simp: readline_def split: list.splits)
  from t1 t2 t3 p1 rows show ?thesis by blast
qed

text \<open>
  C1. The claim: for a well-formed corpus file the reader appends \<open>(word_id - 1, count)\<close>
  to the document with index \<open>doc_id - 1\<close>. The code indexes the document list with
  \<open>doc_id\<close> itself. On the file declaring two documents with the single row \<open>1 1 5\<close> the
  pair \<open>(0, 5)\<close> lands in the document of index 1, not 0; on the file with the rows
  \<open>1 1 5\<close> and \<open>2 3 1\<close>, both ids within \<open>[1, D]\<close>, the reader raises \<open>IndexError\<close>.
\<close>

theorem create_gensim_corpus_doc_id_unconverted:
  "create_gensim_corpus_text ''2\<newline>3\<newline>1\<newline>1 1 5\<newline>'' = Inr [[], [(0, 5)]] \<and>
   create_gensim_corpus_text ''2\<newline>3\<newline>2\<newline>1 1 5\<newline>2 3 1\<newline>'' = Inl IndexError"
  by code_simp



text \<open>
  C5, as stated: the reader enforces the declared pair count \<open>N\<close>. It does not: the
  first file declares five pairs and holds one row, the second declares one pair and
  holds two rows; both are read without error.
\<close>

theorem create_gensim_corpus_ignores_num_rows_counterexample:
  "create_gensim_corpus_text ''1\<newline>1\<newline>5\<newline>0 1 1\<newline>'' = Inr [[(0, 1)]] \<and>
   create_gensim_corpus_text ''1\<newline>2\<newline>1\<newline>0 1 1\<newline>0 2 4\<newline>'' = Inr [[(0, 1), (1, 4)]]"
  by code_simp

text \<open>
  C5, amended: the declared pair count is parsed and not used again. Whenever the reader
  returns a corpus, the file has its three header lines and the total number of pairs of
  the corpus is the number of lines that follow them, whatever \<open>N\<close> declares.
\<close>

theorem create_gensim_corpus_pair_count:
  assumes "create_gensim_corpus_text content = Inr corpus"
  shows "3 \<le> length (text_lines content) \<and>
         sum_list (map length corpus) = length (text_lines content) - 3"
proof -
  from create_gensim_corpus_text_Inr_header [OF assms]
  obtain l1 l2 l3 rows D where l: "text_lines content = l1 # l2 # l3 # rows"
    and r: "read_rows (replicate (nat D) []) rows = Inr corpus"
    by blast
  from read_rows_pair_count [OF r] have "sum_list (map length corpus) = length rows"
    by simp
  with l show ?thesis by simp
qed

theorem create_gensim_corpus_pair_count_witness:
  "create_gensim_corpus_text ''1\<newline>1\<newline>5\<newline>0 1 1\<newline>'' = Inr [[(0, 1)]] \<and>
   sum_list (map length [[(0 :: int, 1 :: int)]]) =
     length (text_lines ''1\<newline>1\<newline>5\<newline>0 1 1\<newline>'') - 3"
proof -
  have c: "create_gensim_corpus_text ''1\<newline>1\<newline>5\<newline>0 1 1\<newline>'' = Inr [[(0, 1)]]"
    by code_simp
  from create_gensim_corpus_pair_count [OF c] c show ?thesis by simp
qed


section \<open>Properties of the vocabulary loader\<close>

lemma file_lines_shape:
  "l \<in> set (file_lines s) \<Longrightarrow> l \<noteq> [] \<and> LF \<notin> set (butlast l)"
proof (induction s arbitrary: l)
  case Nil
  then show ?case by simp
next
  case (Cons c cs)
  show ?case
  proof (cases "c = LF")
    case True
    with Cons show ?thesis by auto
  next
    case False
    show ?thesis
    proof (cases "file_lines cs")
      case Nil
      with False Cons.prems show ?thesis by simp
    next
      case (Cons l' ls)
      with False Cons.prems have "l = c # l' \<or> l \<in> set ls" by auto
      then show ?thesis
      proof
        assume "l = c # l'"
        moreover from Cons Cons.IH [of l'] have "l' \<noteq> [] \<and> LF \<notin> set (butlast l')" by simp
        ultimately show ?thesis using False by simp
      next
        assume "l \<in> set ls"
        with Cons Cons.IH [of l] show ?thesis by simp
      qed
    qed
  qed
qed

lemma filter_LF_strip:
  assumes "l \<noteq> []" and "LF \<notin> set (butlast l)"
  shows "filter (\<lambda>c. c \<noteq> LF) l = strip_trailing_newline l"
proof -
  from assms(1) have l: "l = butlast l @ [last l]" by simp
  from assms(2) have f: "filter (\<lambda>c. c \<noteq> LF) (butlast l) = butlast l"
    by (auto simp: filter_id_conv)
  have "filter (\<lambda>c. c \<noteq> LF) l = filter (\<lambda>c. c \<noteq> LF) (butlast l @ [last l])"
    using l by simp
  also have "\<dots> = butlast l @ (if last l = LF then [] else [last l])"
    using f by simp
  also have "\<dots> = strip_trailing_newline l"
    using assms(1) by (simp add: strip_trailing_newline_def)
  finally show ?thesis .
qed

lemma foldl_enumerate_lookup:
  "foldl (\<lambda>d (i, word). d(int i \<mapsto> g word)) d0 (List.enumerate n ls) k =
     (if int n \<le> k \<and> k < int (n + length ls) then Some (g (ls ! (nat k - n))) else d0 k)"
proof (induction ls arbitrary: d0 n)
  case Nil
  then show ?case by auto
next
  case (Cons l ls)
  let ?F = "\<lambda>d (i, word). d(int i \<mapsto> g word)"
  have "foldl ?F d0 (List.enumerate n (l # ls)) k =
        foldl ?F (d0(int n \<mapsto> g l)) (List.enumerate (Suc n) ls) k"
    by (simp only: enumerate_simps foldl.simps case_prod_conv)
  also have "\<dots> = (if int (Suc n) \<le> k \<and> k < int (Suc n + length ls)
                    then Some (g (ls ! (nat k - Suc n))) else (d0(int n \<mapsto> g l)) k)"
    by (rule Cons.IH)
  also have "\<dots> = (if int n \<le> k \<and> k < int (n + length (l # ls))
                    then Some (g ((l # ls) ! (nat k - n))) else d0 k)"
  proof (cases "k = int n")
    case True
    then show ?thesis by simp
  next
    case False
    have "nat k - n = Suc (nat k - Suc n)" if "int n \<le> k"
      using that False by linarith
    with False show ?thesis by auto
  qed
  finally show ?case .
qed

lemma word_index_lookup:
  "word_index content k =
     (if 0 \<le> k \<and> k < int (length (text_lines content))
      then Some (filter (\<lambda>c. c \<noteq> LF) (text_lines content ! nat k)) else None)"
  unfolding word_index_def by (simp add: foldl_enumerate_lookup)

text \<open>
  C9. The vocabulary loader maps exactly the indices \<open>0\<close> to \<open>L - 1\<close> of the \<open>L\<close> lines of
  the file, and the value at index \<open>i\<close> is line \<open>i\<close> with its trailing newline stripped.
\<close>

theorem word_index_lines:
  "dom (word_index content) = {k. 0 \<le> k \<and> k < int (length (text_lines content))} \<and>
   (\<forall>i < length (text_lines content).
      word_index content (int i) = Some (strip_trailing_newline (text_lines content ! i)))"
proof -
  have "dom (word_index content) = {k. 0 \<le> k \<and> k < int (length (text_lines content))}"
    by (auto simp: word_index_lookup dom_def)
  moreover have "word_index content (int i) =
      Some (strip_trailing_newline (text_lines content ! i))"
    if "i < length (text_lines content)" for i
  proof -
    from that have "text_lines content ! i \<in> set (file_lines (universal_newlines content))"
      unfolding text_lines_def by simp
    from file_lines_shape [OF this] filter_LF_strip
    have "filter (\<lambda>c. c \<noteq> LF) (text_lines content ! i) =
        strip_trailing_newline (text_lines content ! i)"
      by blast
    with that show ?thesis by (simp add: word_index_lookup)
  qed
  ultimately show ?thesis by blast
qed

theorem word_index_lines_witness:
  "text_lines ''cat\<newline>dog\<newline>fish'' = [''cat\<newline>'', ''dog\<newline>'', ''fish''] \<and>
   dom (word_index ''cat\<newline>dog\<newline>fish'') = {k. 0 \<le> k \<and> k < 3} \<and>
   word_index ''cat\<newline>dog\<newline>fish'' 0 = Some ''cat'' \<and>
   word_index ''cat\<newline>dog\<newline>fish'' 1 = Some ''dog'' \<and>
   word_index ''cat\<newline>dog\<newline>fish'' 2 = Some ''fish''"
proof -
  have l: "text_lines ''cat\<newline>dog\<newline>fish'' = [''cat\<newline>'', ''dog\<newline>'', ''fish'']"
    by code_simp
  have s: "strip_trailing_newline ''cat\<newline>'' = ''cat''"
    "strip_trailing_newline ''dog\<newline>'' = ''dog''"
    "strip_trailing_newline ''fish'' = ''fish''"
    by (simp_all add: strip_trailing_newline_def)
  from word_index_lines [of "''cat\<newline>dog\<newline>fish''"]
  have d: "dom (word_index ''cat\<newline>dog\<newline>fish'') = {k. 0 \<le> k \<and> k < 3}"
    and v: "\<forall>i < 3. word_index ''cat\<newline>dog\<newline>fish'' (int i) =
              Some (strip_trailing_newline ([''cat\<newline>'', ''dog\<newline>'', ''fish''] ! i))"
    unfolding l by simp_all
  from v [rule_format, of 0] v [rule_format, of 1] v [rule_format, of 2] s l d
  show ?thesis by simp
qed


section \<open>Properties of the normalisation\<close>

lemma foldl_fadd_Fin: "foldl fadd (Fin a) (map Fin xs) = Fin (a + sum_list xs)"
  by (induction xs arbitrary: a) (simp_all add: add.assoc)

lemma py_sum_Fin: "py_sum (map Fin xs) = Fin (sum_list xs)"
  by (simp add: py_sum_def foldl_fadd_Fin)

lemma length_normalise: "length (normalise gammas) = length gammas"
  by (simp add: normalise_def)




lemma normalise_zeros: "normalise (replicate t (Fin 0)) = replicate t NaN"
proof -
  have "map Fin (replicate t (0 :: real)) = replicate t (Fin 0)" by simp
  then have "py_sum (replicate t (Fin 0)) = Fin 0"
    using py_sum_Fin [of "replicate t 0"] by (simp add: sum_list_replicate)
  then show ?thesis by (simp add: normalise_def)
qed

section \<open>Properties of the inference loop\<close>

lemma io_bind_Inr:
  "m fs = (Inr x, fs1, evs1) \<Longrightarrow> io_bind m f fs =
     (case f x fs1 of (r, fs2, evs2) \<Rightarrow> (r, fs2, evs1 @ evs2))"
  by (simp add: io_bind_def)

lemma io_bind_Inl:
  "m fs = (Inl e, fs1, evs1) \<Longrightarrow> io_bind m f fs = (Inl e, fs1, evs1)"
  by (simp add: io_bind_def)

lemma assign_row_same_length:
  "ind_doc < length M \<Longrightarrow> length v = length (M ! ind_doc) \<Longrightarrow>
   assign_row M ind_doc v = Inr (M[ind_doc := v])"
  by (simp add: assign_row_def)

lemma infer_loop_step:
  assumes "inference lib hdp [bow] = Inr [gammas]"
    and "n < length M" and "length gammas = length (M ! n)"
  shows "infer_loop lib hdp M ((n, bow) # rest) fs =
     (case infer_loop lib hdp (M[n := normalise gammas]) rest fs of
        (r, fs', evs) \<Rightarrow> (r, fs', Call_inference [bow] # evs))"
  using assms
  by (simp add: io_bind_def call_def io_lift_def first_row_def assign_row_def length_normalise)

lemma infer_loop_well_shaped:
  assumes "\<forall>bow \<in> set docs. inference lib hdp [bow] = Inr [g bow] \<and> length (g bow) = t"
    and "length M = n + length docs"
    and "\<forall>i < length M. length (M ! i) = t"
  shows "infer_loop lib hdp M (List.enumerate n docs) fs =
     (Inr (take n M @ map (\<lambda>bow. normalise (g bow)) docs), fs,
      map (\<lambda>bow. Call_inference [bow]) docs)"
  using assms
proof (induction docs arbitrary: M n)
  case Nil
  then show ?case by simp
next
  case (Cons bow docs)
  let ?M = "M[n := normalise (g bow)]"
  from Cons.prems have inf: "inference lib hdp [bow] = Inr [g bow]"
    and n: "n < length M" and len: "length (g bow) = length (M ! n)"
    by simp_all
  have rows: "\<forall>i < length ?M. length (?M ! i) = t"
    using Cons.prems by (simp add: nth_list_update length_normalise)
  have "infer_loop lib hdp ?M (List.enumerate (Suc n) docs) fs =
     (Inr (take (Suc n) ?M @ map (\<lambda>bow. normalise (g bow)) docs), fs,
      map (\<lambda>bow. Call_inference [bow]) docs)"
    using Cons.prems rows by (intro Cons.IH) simp_all
  moreover have "take (Suc n) ?M = take n M @ [normalise (g bow)]"
    using n by (simp add: take_Suc_conv_app_nth)
  ultimately show ?case
    using infer_loop_step [OF inf n len] by simp
qed

lemma assign_row_shape:
  assumes "assign_row M ind_doc v = Inr M1"
  shows "length M1 = length M"
    and "(\<forall>row \<in> set M. length row = t) \<Longrightarrow> (\<forall>row \<in> set M1. length row = t)"
proof -
  from assms have i: "ind_doc < length M"
    by (simp add: assign_row_def split: if_splits)
  let ?cols = "length (M ! ind_doc)"
  from assms i have "M1 = M[ind_doc := v] \<and> length v = ?cols \<or>
      M1 = M[ind_doc := replicate ?cols (hd v)]"
    by (simp add: assign_row_def Let_def split: if_splits)
  then obtain v' where M1: "M1 = M[ind_doc := v']" and v': "length v' = ?cols"
    by auto
  from M1 show "length M1 = length M" by simp
  show "\<forall>row \<in> set M1. length row = t" if rows: "\<forall>row \<in> set M. length row = t"
  proof
    fix row assume "row \<in> set M1"
    with M1 have "row \<in> insert v' (set M)"
      using set_update_subset_insert by fastforce
    moreover from rows i have "?cols = t" by simp
    ultimately show "length row = t" using rows v' by auto
  qed
qed

lemma infer_loop_Cons_cases:
  assumes "infer_loop lib hdp M ((ind_doc, bow) # items) fs = (r, fs', evs)"
  obtains (fail) e where "r = Inl e" and "fs' = fs" and "evs = [Call_inference [bow]]"
  | (ok) v M1 evs2 where "assign_row M ind_doc v = Inr M1"
      and "infer_loop lib hdp M1 items fs = (r, fs', evs2)"
      and "evs = Call_inference [bow] # evs2"
proof -
  let ?step = "io_bind (call (Call_inference [bow]) (inference lib hdp [bow])) (\<lambda>a.
        io_bind (io_lift (first_row a)) (\<lambda>gammas.
        io_lift (assign_row M ind_doc (normalise gammas))))"
  have "(\<exists>e. ?step fs = (Inl e, fs, [Call_inference [bow]])) \<or>
        (\<exists>v M1. assign_row M ind_doc v = Inr M1 \<and> ?step fs = (Inr M1, fs, [Call_inference [bow]]))"
  proof (cases "inference lib hdp [bow]")
    case (Inl e)
    then show ?thesis by (simp add: io_bind_def call_def)
  next
    case a: (Inr a)
    show ?thesis
    proof (cases "first_row a")
      case (Inl e)
      with a show ?thesis by (simp add: io_bind_def call_def io_lift_def)
    next
      case g: (Inr gammas)
      show ?thesis
      proof (cases "assign_row M ind_doc (normalise gammas)")
        case (Inl e)
        with a g show ?thesis by (simp add: io_bind_def call_def io_lift_def)
      next
        case (Inr M1)
        with a g have "?step fs = (Inr M1, fs, [Call_inference [bow]])"
          by (simp add: io_bind_def call_def io_lift_def)
        with Inr show ?thesis by blast
      qed
    qed
  qed
  then show thesis
  proof (elim disjE exE conjE)
    fix e assume "?step fs = (Inl e, fs, [Call_inference [bow]])"
    with assms have "r = Inl e" "fs' = fs" "evs = [Call_inference [bow]]"
      by (simp_all add: io_bind_Inl)
    then show thesis by (rule fail)
  next
    fix v M1
    assume v: "assign_row M ind_doc v = Inr M1"
      and step: "?step fs = (Inr M1, fs, [Call_inference [bow]])"
    obtain r2 fs2 evs2 where rest: "infer_loop lib hdp M1 items fs = (r2, fs2, evs2)"
      by (cases "infer_loop lib hdp M1 items fs")
    from assms have "io_bind ?step (\<lambda>M'. infer_loop lib hdp M' items) fs = (r, fs', evs)"
      by simp
    with io_bind_Inr [where m = "?step" and f = "\<lambda>M'. infer_loop lib hdp M' items", OF step] rest
    have "r = r2" "fs' = fs2" "evs = Call_inference [bow] # evs2"
      by simp_all
    with v rest show thesis by (intro ok) simp_all
  qed
qed

lemma infer_loop_fs:
  "infer_loop lib hdp M items fs = (r, fs', evs) \<Longrightarrow> fs' = fs"
proof (induction items arbitrary: M evs)
  case Nil
  then show ?case by simp
next
  case (Cons item items)
  obtain ind_doc bow where item: "item = (ind_doc, bow)" by (cases item)
  from Cons.prems [unfolded item] show ?case
  proof (cases rule: infer_loop_Cons_cases)
    case (fail e)
    then show ?thesis by simp
  next
    case (ok v M1 evs2)
    from Cons.IH [OF ok(2)] show ?thesis .
  qed
qed

lemma infer_loop_prefix:
  "infer_loop lib hdp M items fs = (r, fs', evs) \<Longrightarrow>
   prefix evs (map (\<lambda>(i, bow). Call_inference [bow]) items)"
proof (induction items arbitrary: M evs)
  case Nil
  then show ?case by simp
next
  case (Cons item items)
  obtain ind_doc bow where item: "item = (ind_doc, bow)" by (cases item)
  from Cons.prems [unfolded item] show ?case
  proof (cases rule: infer_loop_Cons_cases)
    case (fail e)
    with item show ?thesis by simp
  next
    case (ok v M1 evs2)
    from Cons.IH [OF ok(2)] ok(3) item show ?thesis by simp
  qed
qed

lemma infer_loop_Inr:
  "infer_loop lib hdp M items fs = (Inr M', fs', evs) \<Longrightarrow>
   evs = map (\<lambda>(i, bow). Call_inference [bow]) items \<and> length M' = length M"
proof (induction items arbitrary: M evs)
  case Nil
  then show ?case by simp
next
  case (Cons item items)
  obtain ind_doc bow where item: "item = (ind_doc, bow)" by (cases item)
  from Cons.prems [unfolded item] show ?case
  proof (cases rule: infer_loop_Cons_cases)
    case (fail e)
    then show ?thesis by simp
  next
    case (ok v M1 evs2)
    from Cons.IH [OF ok(2)] ok(3) item assign_row_shape(1) [OF ok(1)]
    show ?thesis by simp
  qed
qed

lemma infer_loop_rows:
  "infer_loop lib hdp M items fs = (Inr M', fs', evs) \<Longrightarrow>
   \<forall>row \<in> set M. length row = t \<Longrightarrow> \<forall>row \<in> set M'. length row = t"
proof (induction items arbitrary: M evs)
  case Nil
  then show ?case by simp
next
  case (Cons item items)
  obtain ind_doc bow where item: "item = (ind_doc, bow)" by (cases item)
  from Cons.prems(1) [unfolded item] show ?case
  proof (cases rule: infer_loop_Cons_cases)
    case (fail e)
    then show ?thesis by simp
  next
    case (ok v M1 evs2)
    from assign_row_shape(2) [OF ok(1) Cons.prems(2)] Cons.IH [OF ok(2)]
    show ?thesis by blast
  qed
qed







text \<open>
  C3, as stated: a document without words is flagged at the inference engine and the
  error reaches the caller; the division by the zero sum is never performed and no row
  of NaN is written. The run below, on a corpus whose first document is empty, ends
  without error and saves a document-topic matrix whose first row is NaN.
\<close>

theorem train_hdp_empty_document_counterexample:
  "fst (train_hdp example_library ''docword_concat.bow_tm.txt'' ''b'' ''e'' False
          example_params False example_files) = Inr () \<and>
   concat (map saved (snd (snd (train_hdp example_library ''docword_concat.bow_tm.txt''
          ''b'' ''e'' False example_params False example_files)))) =
     [(''/data/topics/b/e/doctopic.npy'', [[NaN, NaN], [Fin (1 / 4), Fin (3 / 4)]]),
      (''/data/topics/b/e/wordtopic.npy'',
         [[Fin (1 / 2), Fin (1 / 4), Fin (1 / 4)], [Fin (1 / 4), Fin (1 / 4), Fin (1 / 2)]])]"
  by code_simp

text \<open>
  C3, amended: the loop has no test of the sum. When the library returns for every
  document one vector of \<open>t\<close> gammas, the loop raises nothing and writes into the row of
  each document its gammas divided by their sum; for a document whose gammas are all
  zero this row is filled with NaN.
\<close>

theorem infer_loop_divides_unconditionally:
  assumes "\<forall>bow \<in> set corpus. inference lib hdp [bow] = Inr [g bow] \<and> length (g bow) = t"
    and "length M = length corpus"
    and "\<forall>i < length M. length (M ! i) = t"
  shows "infer_loop lib hdp M (List.enumerate 0 corpus) fs =
           (Inr (map (\<lambda>bow. map (\<lambda>x. fdiv x (py_sum (g bow))) (g bow)) corpus), fs,
            map (\<lambda>bow. Call_inference [bow]) corpus) \<and>
         (\<forall>bow \<in> set corpus. g bow = replicate t (Fin 0) \<longrightarrow>
            map (\<lambda>x. fdiv x (py_sum (g bow))) (g bow) = replicate t NaN)"
proof -
  from infer_loop_well_shaped [where n = 0 and fs = fs, OF assms(1) _ assms(3)] assms(2)
  have "infer_loop lib hdp M (List.enumerate 0 corpus) fs =
      (Inr (map (\<lambda>bow. normalise (g bow)) corpus), fs,
       map (\<lambda>bow. Call_inference [bow]) corpus)"
    by simp
  moreover have "map (\<lambda>x. fdiv x (py_sum (g bow))) (g bow) = replicate t NaN"
    if "g bow = replicate t (Fin 0)" for bow
    using normalise_zeros [of t] that by (simp add: normalise_def)
  ultimately show ?thesis by (simp add: normalise_def)
qed

theorem infer_loop_divides_unconditionally_witness:
  "infer_loop example_library () (replicate 2 (replicate 2 undefined))
     (List.enumerate 0 [[], [(0, 2)]]) Map.empty =
     (Inr [[NaN, NaN], [Fin (1 / 4), Fin (3 / 4)]], Map.empty,
      [Call_inference [[]], Call_inference [[(0, 2)]]])"
proof -
  let ?g = "\<lambda>bow :: document. if bow = [] then [Fin 0, Fin 0] else [Fin 1, Fin 3]"
  let ?corpus = "[[], [(0, 2)]] :: GensimCorpus"
  let ?M = "replicate 2 (replicate 2 undefined) :: matrix"
  have lib: "\<forall>bow \<in> set ?corpus. inference example_library () [bow] = Inr [?g bow] \<and>
      length (?g bow) = 2"
    by (simp add: example_library_def)
  have shape: "length ?M = length ?corpus" "\<forall>i < length ?M. length (?M ! i) = 2"
    by simp_all
  from infer_loop_divides_unconditionally [where fs = Map.empty, OF lib shape]
  show ?thesis by (simp add: py_sum_def)
qed

section \<open>Properties of \<open>train_hdp\<close>\<close>

lemma basename_join2:
  assumes "CHR ''/'' \<notin> set b"
  shows "basename (join2 path b) = b"
proof -
  let ?P = "\<lambda>c. c \<noteq> CHR ''/''"
  from assms have tw: "takeWhile ?P (rev b @ ys) = rev b @ takeWhile ?P ys" for ys
    by (intro takeWhile_append2) auto
  from assms have hd: "\<not> (b \<noteq> [] \<and> hd b = CHR ''/'')"
    by (cases b) auto
  have pre: "basename (pre @ b) = b" if "pre = [] \<or> last pre = CHR ''/''" for pre
  proof -
    have "takeWhile ?P (rev pre) = []"
    proof (cases "pre = []")
      case True
      then show ?thesis by simp
    next
      case False
      with that have "hd (rev pre) = CHR ''/''" by (simp add: hd_rev)
      with False show ?thesis by (cases "rev pre") auto
    qed
    then have "takeWhile ?P (rev (pre @ b)) = rev b"
      using tw [of "rev pre"] by simp
    then show ?thesis by (simp add: basename_def)
  qed
  show ?thesis
  proof (cases "path = [] \<or> last path = CHR ''/''")
    case True
    with hd pre [of path] show ?thesis by (auto simp: join2_def)
  next
    case False
    with hd pre [of "path @ ''/''"] show ?thesis by (auto simp: join2_def)
  qed
qed

lemma basename_paths:
  "basename (words_input_path b) = VOCAB_FILENAME"
  "basename (docword_input_path b) = DOCWORD_FILENAME"
  "basename (doctopic_output_path b e) = DOCTOPIC_FILENAME"
  "basename (wordtopic_output_path b e) = WORDTOPIC_FILENAME"
  by (simp_all add: words_input_path_def docword_input_path_def doctopic_output_path_def
      wordtopic_output_path_def path_join_def basename_join2
      VOCAB_FILENAME_def DOCWORD_FILENAME_def DOCTOPIC_FILENAME_def WORDTOPIC_FILENAME_def)

lemma paths_distinct:
  "words_input_path b \<noteq> doctopic_output_path b' e"
  "words_input_path b \<noteq> wordtopic_output_path b' e"
  "docword_input_path b \<noteq> doctopic_output_path b' e"
  "docword_input_path b \<noteq> wordtopic_output_path b' e"
  "doctopic_output_path b e \<noteq> wordtopic_output_path b' e'"
proof -
  have names: "VOCAB_FILENAME \<noteq> DOCTOPIC_FILENAME" "VOCAB_FILENAME \<noteq> WORDTOPIC_FILENAME"
    "DOCWORD_FILENAME \<noteq> DOCTOPIC_FILENAME" "DOCWORD_FILENAME \<noteq> WORDTOPIC_FILENAME"
    "DOCTOPIC_FILENAME \<noteq> WORDTOPIC_FILENAME"
    by (simp_all add: VOCAB_FILENAME_def DOCWORD_FILENAME_def DOCTOPIC_FILENAME_def
        WORDTOPIC_FILENAME_def)
  show "words_input_path b \<noteq> doctopic_output_path b' e"
    "words_input_path b \<noteq> wordtopic_output_path b' e"
    "docword_input_path b \<noteq> doctopic_output_path b' e"
    "docword_input_path b \<noteq> wordtopic_output_path b' e"
    "doctopic_output_path b e \<noteq> wordtopic_output_path b' e'"
    using names basename_paths by metis+
qed


lemma train_hdp_unfold:
  "train_hdp lib DOCWORD_CONCAT_FILENAME bow_name exp_name force params consolidate =
      io_bind (check_file_exists (words_input_path bow_name)) (\<lambda>_.
      io_bind (check_file_exists (docword_input_path bow_name)) (\<lambda>_.
      io_bind (if consolidate
               then check_file_exists (docword_concat_input_path DOCWORD_CONCAT_FILENAME bow_name)
               else io_return ()) (\<lambda>_.
      io_bind (check_remove (doctopic_output_path bow_name exp_name) force) (\<lambda>_.
      io_bind (check_remove (wordtopic_output_path bow_name exp_name) force) (\<lambda>_.
      io_bind (create_directory (output_dir bow_name exp_name)) (\<lambda>_.
      io_bind (open_read (words_input_path bow_name)) (\<lambda>fin.
      io_bind (create_gensim_corpus (docword_input_path bow_name)) (\<lambda>corpus.
      io_bind (if consolidate
               then create_gensim_corpus (docword_concat_input_path DOCWORD_CONCAT_FILENAME bow_name)
               else io_return corpus) (\<lambda>training_corpus.
      io_bind (call (Call_from_corpus training_corpus)
                 (from_corpus lib training_corpus (word_index fin))) (\<lambda>dictionary.
      io_bind (call (Call_HdpModel training_corpus)
                 (HdpModel lib training_corpus dictionary params)) (\<lambda>hdp.
      io_bind (io_lift (np_empty (length corpus) (T params))) (\<lambda>document_topics.
      io_bind (infer_loop lib hdp document_topics (List.enumerate 0 corpus)) (\<lambda>document_topics.
      io_bind (np_save (doctopic_output_path bow_name exp_name) document_topics) (\<lambda>_.
      io_bind (call Call_get_topics (get_topics lib hdp)) (\<lambda>topics.
      np_save (wordtopic_output_path bow_name exp_name) topics)))))))))))))))"
  unfolding train_hdp_def Let_def words_input_path_def docword_input_path_def
    docword_concat_input_path_def doctopic_output_path_def wordtopic_output_path_def
    output_dir_def input_dir_def ..

lemma io_bindE:
  assumes "io_bind m f fs = (r, fs', evs)"
  obtains (fail) e where "m fs = (Inl e, fs', evs)" and "r = Inl e"
  | (ok) x fs1 evs1 evs2 where "m fs = (Inr x, fs1, evs1)"
      and "f x fs1 = (r, fs', evs2)" and "evs = evs1 @ evs2"
proof -
  obtain r1 fs1 evs1 where m: "m fs = (r1, fs1, evs1)" by (cases "m fs")
  show thesis
  proof (cases r1)
    case (Inl e)
    with m assms have "m fs = (Inl e, fs', evs)" "r = Inl e"
      by (auto simp: io_bind_def)
    then show thesis by (rule fail)
  next
    case (Inr x)
    obtain r2 fs2 evs2 where f: "f x fs1 = (r2, fs2, evs2)" by (cases "f x fs1")
    with m Inr assms have "f x fs1 = (r, fs', evs2)" "evs = evs1 @ evs2"
      by (auto simp: io_bind_def)
    with m Inr show thesis by (intro ok) simp_all
  qed
qed

lemma check_file_exists_eq:
  "check_file_exists path fs = (r, fs', evs) \<longleftrightarrow>
     r = (if fs path = None then Inl MissingInput else Inr ()) \<and> fs' = fs \<and>
     evs = [Call_check_file_exists path]"
  by (auto simp: check_file_exists_def)

lemma check_remove_eq:
  "check_remove path force fs = (r, fs', evs) \<longleftrightarrow>
     r = (if fs path \<noteq> None \<and> \<not> force then Inl OutputExists else Inr ()) \<and>
     fs' = (if fs path \<noteq> None \<and> force then fs(path := None) else fs) \<and>
     evs = [Call_check_remove path]"
  by (auto simp: check_remove_def)

lemma create_directory_eq:
  "create_directory path fs = (r, fs', evs) \<longleftrightarrow>
     r = Inr () \<and> fs' = (if fs path = None then fs(path \<mapsto> Directory) else fs) \<and>
     evs = [Call_create_directory path]"
  by (auto simp: create_directory_def)

lemma open_read_eq:
  "open_read path fs = (r, fs', evs) \<longleftrightarrow>
     r = (case fs path of Some (Text content) \<Rightarrow> Inr content
          | Some (Array a) \<Rightarrow> Inl UnicodeDecodeError | _ \<Rightarrow> Inl OSError) \<and>
     fs' = fs \<and> evs = [Call_open path]"
  by (auto simp: open_read_def)

lemma open_read_Inr:
  "open_read path fs = (Inr content, fs', evs) \<longleftrightarrow>
     fs path = Some (Text content) \<and> fs' = fs \<and> evs = [Call_open path]"
  by (auto simp: open_read_def split: option.splits content.splits)

lemma np_save_eq:
  "np_save path a fs = (r, fs', evs) \<longleftrightarrow>
     r = Inr () \<and> fs' = fs(path \<mapsto> Array a) \<and> evs = [Call_save path a]"
  by (auto simp: np_save_def)

lemma call_eq: "call ev x fs = (r, fs', evs) \<longleftrightarrow> r = x \<and> fs' = fs \<and> evs = [ev]"
  by (auto simp: call_def)

lemma io_lift_eq: "io_lift x fs = (r, fs', evs) \<longleftrightarrow> r = x \<and> fs' = fs \<and> evs = []"
  by (auto simp: io_lift_def)

lemma io_return_eq: "io_return x fs = (r, fs', evs) \<longleftrightarrow> r = Inr x \<and> fs' = fs \<and> evs = []"
  by (auto simp: io_return_def)

lemmas io_eqs = check_file_exists_eq check_remove_eq create_directory_eq open_read_eq
  np_save_eq call_eq io_lift_eq io_return_eq

lemma create_gensim_corpus_eq:
  "create_gensim_corpus path fs = (r, fs', evs) \<Longrightarrow> fs' = fs \<and> evs = [Call_open path] \<and>
     (\<forall>corpus. r = Inr corpus \<longrightarrow>
        (\<exists>content. fs path = Some (Text content) \<and>
           create_gensim_corpus_text content = Inr corpus))"
  unfolding create_gensim_corpus_def
  by (erule io_bindE) (auto simp: io_lift_eq open_read_def split: option.splits content.splits)

lemma inference_events:
  "concat (map opened (map (\<lambda>(i, bow). Call_inference [bow]) items)) = []"
  "concat (map trained (map (\<lambda>(i, bow). Call_inference [bow]) items)) = []"
  "concat (map saved (map (\<lambda>(i, bow). Call_inference [bow]) items)) = []"
  "concat (map inferred (map (\<lambda>(i, bow). Call_inference [bow]) items)) =
     map (\<lambda>bow. [bow]) (map snd items)"
  by (induction items) auto

lemma infer_loop_events:
  assumes "infer_loop lib hdp M items fs = (r, fs', evs)"
  shows "fs' = fs" and "concat (map opened evs) = []" and "concat (map trained evs) = []"
    and "concat (map saved evs) = []"
    and "prefix (concat (map inferred evs)) (map (\<lambda>bow. [bow]) (map snd items))"
proof -
  let ?f = "\<lambda>(i :: nat, bow :: document). Call_inference [bow]"
  from infer_loop_prefix [OF assms] have "evs = take (length evs) (map ?f items)"
    by (metis append_eq_conv_conj prefix_def)
  then have evs: "evs = map ?f (take (length evs) items)"
    by (simp add: take_map)
  show "fs' = fs" by (rule infer_loop_fs [OF assms])
  show "concat (map opened evs) = []" by (subst evs) (rule inference_events)
  show "concat (map trained evs) = []" by (subst evs) (rule inference_events)
  show "concat (map saved evs) = []" by (subst evs) (rule inference_events)
  have "concat (map inferred evs) = map (\<lambda>bow. [bow]) (map snd (take (length evs) items))"
    by (subst evs) (rule inference_events)
  also have "\<dots> = take (length evs) (map (\<lambda>bow. [bow]) (map snd items))"
    by (simp add: take_map)
  finally show "prefix (concat (map inferred evs)) (map (\<lambda>bow. [bow]) (map snd items))"
    by (simp add: take_is_prefix)
qed

lemma map_snd_enumerate [simp]: "map snd (List.enumerate n xs) = xs"
  by (simp add: enumerate_eq_zip)

lemma infer_loop_summary:
  assumes "infer_loop lib hdp M (List.enumerate 0 corpus) fs = (r, fs', evs)"
  shows "fs' = fs \<and> concat (map opened evs) = [] \<and> concat (map trained evs) = [] \<and>
     concat (map saved evs) = [] \<and>
     prefix (concat (map inferred evs)) (map (\<lambda>bow. [bow]) corpus) \<and>
     (\<forall>M'. r = Inr M' \<longrightarrow> concat (map inferred evs) = map (\<lambda>bow. [bow]) corpus \<and>
        length M' = length M \<and>
        (\<forall>t. (\<forall>row \<in> set M. length row = t) \<longrightarrow> (\<forall>row \<in> set M'. length row = t)))"
proof -
  have "concat (map inferred evs) = map (\<lambda>bow. [bow]) corpus \<and> length M' = length M \<and>
      (\<forall>t. (\<forall>row \<in> set M. length row = t) \<longrightarrow> (\<forall>row \<in> set M'. length row = t))"
    if r: "r = Inr M'" for M'
  proof -
    from assms r have run: "infer_loop lib hdp M (List.enumerate 0 corpus) fs = (Inr M', fs', evs)"
      by simp
    from infer_loop_Inr [OF run] inference_events(4) [of "List.enumerate 0 corpus"]
    have "concat (map inferred evs) = map (\<lambda>bow. [bow]) corpus" "length M' = length M"
      by simp_all
    moreover from infer_loop_rows [OF run]
    have "\<forall>t. (\<forall>row \<in> set M. length row = t) \<longrightarrow> (\<forall>row \<in> set M'. length row = t)"
      by blast
    ultimately show ?thesis by blast
  qed
  with infer_loop_events [OF assms] show ?thesis by simp
qed

lemma prelude_cases:
  assumes "io_bind (check_file_exists wp) (\<lambda>_.
      io_bind (check_file_exists dp) (\<lambda>_.
      io_bind (if consolidate then check_file_exists cp else io_return ()) (\<lambda>_.
      io_bind (check_remove dt force) (\<lambda>_.
      io_bind (check_remove wt force) (\<lambda>_.
      io_bind (create_directory od) (\<lambda>_. body)))))) fs = (r, fs', evs)"
  obtains (abort) e where "r = Inl e"
      and "set evs \<subseteq> range Call_check_file_exists \<union> range Call_check_remove"
  | (body) fs1 evs1 evs2 where "body fs1 = (r, fs', evs2)" and "evs = evs1 @ evs2"
      and "set evs1 \<subseteq> range Call_check_file_exists \<union> range Call_check_remove \<union>
             range Call_create_directory"
      and "fs wp \<noteq> None" and "fs dp \<noteq> None"
      and "\<forall>q. q \<noteq> dt \<and> q \<noteq> wt \<and> fs q \<noteq> None \<longrightarrow> fs1 q = fs q"
      and "fs1 dt = None \<or> dt = od" and "fs1 wt = None \<or> wt = od"
  using assms
  apply (elim io_bindE)
  apply (auto simp: io_eqs split: if_splits)
  done

lemma np_empty_Inr:
  "np_empty rows cols = Inr M \<Longrightarrow> length M = rows \<and> (\<forall>row \<in> set M. length row = nat cols)"
  by (auto simp: np_empty_def split: if_splits)

lemma io_bind_InrE:
  assumes "io_bind m f fs = (Inr y, fs', evs)"
  obtains x fs1 evs1 evs2 where "m fs = (Inr x, fs1, evs1)"
    and "f x fs1 = (Inr y, fs', evs2)" and "evs = evs1 @ evs2"
  using assms by (elim io_bindE) auto

lemma infer_loop_Inr_summary:
  assumes "np_empty (length corpus) cols = Inr M0"
    and "infer_loop lib hdp M0 (List.enumerate 0 corpus) fs = (Inr M, fs', evs)"
  shows "fs' = fs \<and> concat (map saved evs) = [] \<and>
     concat (map inferred evs) = map (\<lambda>bow. [bow]) corpus \<and>
     length M = length corpus \<and> (\<forall>row \<in> set M. length row = nat cols)"
proof -
  from np_empty_Inr [OF assms(1)]
  have M0: "length M0 = length corpus" "\<forall>row \<in> set M0. length row = nat cols"
    by simp_all
  from infer_loop_summary [OF assms(2)] M0 show ?thesis by simp
qed

lemma call_Inr:
  "call ev x fs = (Inr y, fs', evs) \<longleftrightarrow> x = Inr y \<and> fs' = fs \<and> evs = [ev]"
  by (auto simp: call_def)

lemma io_lift_Inr:
  "io_lift x fs = (Inr y, fs', evs) \<longleftrightarrow> x = Inr y \<and> fs' = fs \<and> evs = []"
  by (auto simp: io_lift_def)

lemma io_return_Inr:
  "io_return x fs = (Inr y, fs', evs) \<longleftrightarrow> y = x \<and> fs' = fs \<and> evs = []"
  by (auto simp: io_return_def)

lemma create_gensim_corpus_Inr:
  "create_gensim_corpus path fs = (Inr corpus, fs', evs) \<Longrightarrow>
     fs' = fs \<and> evs = [Call_open path] \<and>
     (\<exists>content. fs path = Some (Text content) \<and>
        create_gensim_corpus_text content = Inr corpus)"
  by (drule create_gensim_corpus_eq) simp

lemmas io_Inr_eqs = open_read_Inr np_save_eq call_Inr io_lift_Inr io_return_Inr

lemma body_Inr:
  assumes "io_bind (open_read wp) (\<lambda>fin.
      io_bind (create_gensim_corpus dp) (\<lambda>corpus.
      io_bind (if consolidate then create_gensim_corpus cp else io_return corpus)
        (\<lambda>training_corpus.
      io_bind (call (Call_from_corpus training_corpus)
                 (from_corpus lib training_corpus (word_index fin))) (\<lambda>dictionary.
      io_bind (call (Call_HdpModel training_corpus)
                 (HdpModel lib training_corpus dictionary params)) (\<lambda>hdp.
      io_bind (io_lift (np_empty (length corpus) (T params))) (\<lambda>document_topics.
      io_bind (infer_loop lib hdp document_topics (List.enumerate 0 corpus)) (\<lambda>document_topics.
      io_bind (np_save dt document_topics) (\<lambda>_.
      io_bind (call Call_get_topics (get_topics lib hdp)) (\<lambda>topics.
      np_save wt topics))))))))) fs1 = (Inr u, fs', evs2)"
  shows "\<exists>content corpus M topics.
           fs1 dp = Some (Text content) \<and>
           create_gensim_corpus_text content = Inr corpus \<and>
           concat (map inferred evs2) = map (\<lambda>bow. [bow]) corpus \<and>
           concat (map saved evs2) = [(dt, M), (wt, topics)] \<and>
           length M = length corpus \<and>
           (\<forall>row \<in> set M. length row = nat (T params)) \<and>
           fs' = fs1(dt \<mapsto> Array M, wt \<mapsto> Array topics)"
  using assms
  apply (elim io_bind_InrE)
  apply (clarsimp simp: io_Inr_eqs)
  apply (drule (1) infer_loop_Inr_summary)
  apply (drule create_gensim_corpus_Inr)
  apply (cases consolidate)
   apply (auto simp: io_Inr_eqs dest!: create_gensim_corpus_Inr)
  done


lemma check_events:
  assumes "set evs \<subseteq> range Call_check_file_exists \<union> range Call_check_remove \<union>
             range Call_create_directory"
  shows "concat (map opened evs) = []" and "concat (map trained evs) = []"
    and "concat (map inferred evs) = []" and "concat (map saved evs) = []"
  using assms by auto

text \<open>
  C6. With \<open>force\<close> false and an output path that exists, the run aborts: it returns an
  error, leaves the file system as it was and has made only existence checks; no file
  was opened, so the corpus reader was not invoked.
\<close>

theorem train_hdp_existing_output_aborts:
  assumes "\<not> force"
    and "fs (doctopic_output_path bow_name exp_name) \<noteq> None \<or>
         fs (wordtopic_output_path bow_name exp_name) \<noteq> None"
  shows "\<exists>e evs.
     train_hdp lib DOCWORD_CONCAT_FILENAME bow_name exp_name force params consolidate fs =
       (Inl e, fs, evs) \<and>
     set evs \<subseteq> range Call_check_file_exists \<union> range Call_check_remove \<and>
     concat (map opened evs) = []"
proof -
  obtain r fs' evs where run:
    "train_hdp lib DOCWORD_CONCAT_FILENAME bow_name exp_name force params consolidate fs =
       (r, fs', evs)"
    by (cases "train_hdp lib DOCWORD_CONCAT_FILENAME bow_name exp_name force params
          consolidate fs")
  from run [unfolded train_hdp_unfold] assms
  have "(\<exists>e. r = Inl e) \<and> fs' = fs \<and>
      set evs \<subseteq> range Call_check_file_exists \<union> range Call_check_remove"
    apply (elim io_bindE)
    apply (auto simp: io_eqs split: if_splits)
    done
  moreover from this have "concat (map opened evs) = []"
    by (intro check_events) auto
  ultimately show ?thesis using run by auto
qed

theorem train_hdp_existing_output_aborts_witness:
  "doctopic_output_path ''b'' ''e'' = ''/data/topics/b/e/doctopic.npy'' \<and>
   (\<exists>e evs.
     train_hdp example_library ''docword_concat.bow_tm.txt'' ''b'' ''e'' False example_params
       False (example_files(''/data/topics/b/e/doctopic.npy'' \<mapsto> Array [])) =
       (Inl e, example_files(''/data/topics/b/e/doctopic.npy'' \<mapsto> Array []), evs) \<and>
     set evs \<subseteq> range Call_check_file_exists \<union> range Call_check_remove \<and>
     concat (map opened evs) = [])"
proof -
  have p: "doctopic_output_path ''b'' ''e'' = ''/data/topics/b/e/doctopic.npy''"
    by (simp add: doctopic_output_path_def output_dir_def path_join_def join2_def
        TOPICS_DIR_def DOCTOPIC_FILENAME_def)
  have "(example_files(''/data/topics/b/e/doctopic.npy'' \<mapsto> Array []))
      (doctopic_output_path ''b'' ''e'') \<noteq> None"
    unfolding p by simp
  then show ?thesis
    using train_hdp_existing_output_aborts [where force = False and bow_name = "''b''"
        and exp_name = "''e''"
        and fs = "example_files(''/data/topics/b/e/doctopic.npy'' \<mapsto> Array [])"] p
    by blast
qed

text \<open>
  C7. Without consolidation, in every run: the files opened are the vocabulary and then
  the corpus file, and no other; a corpus given to \<open>HdpModel\<close> is the corpus read from
  the corpus file, the chunks given to \<open>inference\<close> are documents of that same corpus
  in order, and all of them when the run ends without error.
\<close>

theorem train_hdp_not_consolidated:
  assumes "\<not> consolidate"
    and run: "train_hdp lib DOCWORD_CONCAT_FILENAME bow_name exp_name force params consolidate fs
       = (r, fs', evs)"
  shows "prefix (concat (map opened evs))
           [words_input_path bow_name, docword_input_path bow_name] \<and>
         (\<forall>training_corpus \<in> set (concat (map trained evs)).
            (\<exists>content. fs (docword_input_path bow_name) = Some (Text content) \<and>
               create_gensim_corpus_text content = Inr training_corpus) \<and>
            prefix (concat (map inferred evs)) (map (\<lambda>bow. [bow]) training_corpus) \<and>
            (r = Inr () \<longrightarrow>
               concat (map inferred evs) = map (\<lambda>bow. [bow]) training_corpus))"
  using run unfolding train_hdp_unfold
proof (cases rule: prelude_cases)
  case (abort e)
  then have "set evs \<subseteq> range Call_check_file_exists \<union> range Call_check_remove \<union>
      range Call_create_directory"
    by auto
  then show ?thesis by (simp add: check_events)
next
  case (body fs1 evs1 evs2)
  note evs1 = check_events [OF body(3)]
  from body(5,6) paths_distinct(3,4) [of bow_name bow_name exp_name]
  have d: "fs1 (docword_input_path bow_name) = fs (docword_input_path bow_name)"
    by simp
  from body(1) assms(1) show ?thesis
    unfolding body(2)
    apply (elim io_bindE)
    apply (auto simp: io_eqs evs1 d dest!: create_gensim_corpus_eq infer_loop_summary)
    done
qed



theorem train_hdp_not_consolidated_witness:
  "concat (map opened (snd (snd (train_hdp example_library ''docword_concat.bow_tm.txt''
      ''b'' ''e'' False example_params False example_files)))) =
     [''/data/bows/b/vocab.bow_tm.txt'', ''/data/bows/b/docword.bow_tm.txt''] \<and>
   concat (map trained (snd (snd (train_hdp example_library ''docword_concat.bow_tm.txt''
      ''b'' ''e'' False example_params False example_files)))) = [[[], [(0, 2)]]] \<and>
   concat (map inferred (snd (snd (train_hdp example_library ''docword_concat.bow_tm.txt''
      ''b'' ''e'' False example_params False example_files)))) = [[[]], [[(0, 2)]]] \<and>
   prefix (concat (map opened (snd (snd (train_hdp example_library
      ''docword_concat.bow_tm.txt'' ''b'' ''e'' False example_params False example_files)))))
     [words_input_path ''b'', docword_input_path ''b''] \<and>
   (\<exists>content. example_files (docword_input_path ''b'') = Some (Text content) \<and>
      create_gensim_corpus_text content = Inr [[], [(0, 2)]])"
proof -
  let ?run = "train_hdp example_library ''docword_concat.bow_tm.txt'' ''b'' ''e'' False
      example_params False example_files"
  have o: "concat (map opened (snd (snd ?run))) =
      [''/data/bows/b/vocab.bow_tm.txt'', ''/data/bows/b/docword.bow_tm.txt'']"
    by code_simp
  have t: "concat (map trained (snd (snd ?run))) = [[[], [(0, 2)]]]"
    by code_simp
  have i: "concat (map inferred (snd (snd ?run))) = [[[]], [[(0, 2)]]]"
    by code_simp
  have run: "?run = (fst ?run, fst (snd ?run), snd (snd ?run))"
    by simp
  have nf: "\<not> False" by simp
  note concl = train_hdp_not_consolidated [OF nf run]
  from concl have p: "prefix (concat (map opened (snd (snd ?run))))
      [words_input_path ''b'', docword_input_path ''b'']"
    by (rule conjunct1)
  have "[[], [(0, 2)]] \<in> set (concat (map trained (snd (snd ?run))))"
    unfolding t by simp
  with concl [THEN conjunct2]
  have "\<exists>content. example_files (docword_input_path ''b'') = Some (Text content) \<and>
      create_gensim_corpus_text content = Inr [[], [(0, 2)]]"
    by blast
  with o t i p show ?thesis by (intro conjI)
qed




text \<open>
  C8. When a run ends without error, with or without consolidation: \<open>inference\<close> was
  called once for each document of the full corpus (the corpus read from the corpus
  file), in order and for nothing else, and the document-topic matrix that was saved has
  one row for each of these documents and \<open>T\<close> columns.
\<close>

theorem train_hdp_document_topics_shape:
  assumes run: "train_hdp lib DOCWORD_CONCAT_FILENAME bow_name exp_name force params consolidate fs
       = (Inr u, fs', evs)"
  shows "\<exists>content corpus M topics.
           fs (docword_input_path bow_name) = Some (Text content) \<and>
           create_gensim_corpus_text content = Inr corpus \<and>
           concat (map inferred evs) = map (\<lambda>bow. [bow]) corpus \<and>
           concat (map saved evs) =
             [(doctopic_output_path bow_name exp_name, M),
              (wordtopic_output_path bow_name exp_name, topics)] \<and>
           length M = length corpus \<and>
           (\<forall>row \<in> set M. length row = nat (T params)) \<and>
           fs' (doctopic_output_path bow_name exp_name) = Some (Array M)"
  using run unfolding train_hdp_unfold
proof (cases rule: prelude_cases)
  case (abort e)
  then show ?thesis by simp
next
  case (body fs1 evs1 evs2)
  note evs1 = check_events [OF body(3)]
  from body(5,6) paths_distinct(3,4) [of bow_name bow_name exp_name]
  have d: "fs1 (docword_input_path bow_name) = fs (docword_input_path bow_name)"
    by simp
  note neq = paths_distinct(5) [of bow_name exp_name bow_name exp_name]
  from body_Inr [OF body(1)] obtain content corpus M topics where
    "fs1 (docword_input_path bow_name) = Some (Text content)"
    "create_gensim_corpus_text content = Inr corpus"
    "concat (map inferred evs2) = map (\<lambda>bow. [bow]) corpus"
    "concat (map saved evs2) =
       [(doctopic_output_path bow_name exp_name, M),
        (wordtopic_output_path bow_name exp_name, topics)]"
    "length M = length corpus"
    "\<forall>row \<in> set M. length row = nat (T params)"
    "fs' = fs1(doctopic_output_path bow_name exp_name \<mapsto> Array M,
               wordtopic_output_path bow_name exp_name \<mapsto> Array topics)"
    by blast
  then show ?thesis
    unfolding body(2)
    by (intro exI [of _ content] exI [of _ corpus] exI [of _ M] exI [of _ topics])
      (simp add: d neq evs1)
qed


theorem train_hdp_document_topics_shape_witness:
  "fst (train_hdp example_library ''docword_concat.bow_tm.txt'' ''b'' ''e'' False
      example_params True
      (example_files(''/data/bows/b/docword_concat.bow_tm.txt'' \<mapsto>
         Text ''1\<newline>3\<newline>1\<newline>0 1 2\<newline>''))) = Inr () \<and>
   concat (map trained (snd (snd (train_hdp example_library ''docword_concat.bow_tm.txt''
      ''b'' ''e'' False example_params True
      (example_files(''/data/bows/b/docword_concat.bow_tm.txt'' \<mapsto>
         Text ''1\<newline>3\<newline>1\<newline>0 1 2\<newline>'')))))) = [[[(0, 2)]]] \<and>
   concat (map inferred (snd (snd (train_hdp example_library ''docword_concat.bow_tm.txt''
      ''b'' ''e'' False example_params True
      (example_files(''/data/bows/b/docword_concat.bow_tm.txt'' \<mapsto>
         Text ''1\<newline>3\<newline>1\<newline>0 1 2\<newline>'')))))) = [[[]], [[(0, 2)]]] \<and>
   (\<exists>content corpus M topics.
      (example_files(''/data/bows/b/docword_concat.bow_tm.txt'' \<mapsto>
         Text ''1\<newline>3\<newline>1\<newline>0 1 2\<newline>'')) (docword_input_path ''b'') =
        Some (Text content) \<and>
      create_gensim_corpus_text content = Inr corpus \<and>
      concat (map inferred (snd (snd (train_hdp example_library
        ''docword_concat.bow_tm.txt'' ''b'' ''e'' False example_params True
        (example_files(''/data/bows/b/docword_concat.bow_tm.txt'' \<mapsto>
           Text ''1\<newline>3\<newline>1\<newline>0 1 2\<newline>'')))))) = map (\<lambda>bow. [bow]) corpus \<and>
      concat (map saved (snd (snd (train_hdp example_library
        ''docword_concat.bow_tm.txt'' ''b'' ''e'' False example_params True
        (example_files(''/data/bows/b/docword_concat.bow_tm.txt'' \<mapsto>
           Text ''1\<newline>3\<newline>1\<newline>0 1 2\<newline>'')))))) =
        [(doctopic_output_path ''b'' ''e'', M), (wordtopic_output_path ''b'' ''e'', topics)] \<and>
      length M = length corpus \<and>
      (\<forall>row \<in> set M. length row = nat (T example_params)) \<and>
      fst (snd (train_hdp example_library ''docword_concat.bow_tm.txt'' ''b'' ''e'' False
        example_params True
        (example_files(''/data/bows/b/docword_concat.bow_tm.txt'' \<mapsto>
           Text ''1\<newline>3\<newline>1\<newline>0 1 2\<newline>''))))
        (doctopic_output_path ''b'' ''e'') = Some (Array M))"
proof -
  let ?fs = "example_files(''/data/bows/b/docword_concat.bow_tm.txt'' \<mapsto>
      Text ''1\<newline>3\<newline>1\<newline>0 1 2\<newline>'')"
  let ?run = "train_hdp example_library ''docword_concat.bow_tm.txt'' ''b'' ''e'' False
      example_params True ?fs"
  have r: "fst ?run = Inr ()"
    by code_simp
  have t: "concat (map trained (snd (snd ?run))) = [[[(0, 2)]]]"
    by code_simp
  have i: "concat (map inferred (snd (snd ?run))) = [[[]], [[(0, 2)]]]"
    by code_simp
  have "?run = (fst ?run, fst (snd ?run), snd (snd ?run))"
    by simp
  then have run: "?run = (Inr (), fst (snd ?run), snd (snd ?run))"
    unfolding r .
  from r t i train_hdp_document_topics_shape [OF run] show ?thesis
    by (intro conjI)
qed

subsection \<open>A failing reader inside a run\<close>






end
